theory Spec2Isabelle
  imports Main "HOL-Library.Sublist"
begin

section \<open>Text primitives of the host language\<close>

text \<open>
  The classifiers work on JavaScript strings through three library methods:
  \<open>toLowerCase\<close>, \<open>includes\<close> and \<open>trim\<close>. A text is modelled as a \<open>string\<close>
  whose characters are the code points U+0000 to U+00FF (Latin-1); text beyond that
  range is outside the model. Every keyword of every table is plain ASCII.
\<close>

definition toLowerChar :: "char \<Rightarrow> char" where
  \<comment> \<open>Unicode simple lower-casing on Latin-1: A-Z, U+00C0 to U+00D6 and U+00D8 to U+00DE
      move up by 32, everything else stays.\<close>
  "toLowerChar c =
     (let n = (of_char c :: nat)
      in if (65 \<le> n \<and> n \<le> 90) \<or> (192 \<le> n \<and> n \<le> 214) \<or> (216 \<le> n \<and> n \<le> 222)
         then char_of (n + 32) else c)"

definition toLowerCase :: "string \<Rightarrow> string" where
  "toLowerCase s = map toLowerChar s"

definition includes_str :: "string \<Rightarrow> string \<Rightarrow> bool" where
  \<comment> \<open>\<open>s.includes(k)\<close>: \<open>k\<close> occurs in \<open>s\<close> as a contiguous run of characters.\<close>
  "includes_str s k = sublist k s"

definition isWhiteSpace :: "char \<Rightarrow> bool" where
  \<comment> \<open>The white space and line terminators that \<open>trim\<close> strips, within Latin-1:
      TAB, LF, VT, FF, CR, SPACE and NO-BREAK SPACE.\<close>
  "isWhiteSpace c = ((of_char c :: nat) \<in> {9, 10, 11, 12, 13, 32, 160})"

definition trim :: "string \<Rightarrow> string" where
  "trim s = rev (dropWhile isWhiteSpace (rev (dropWhile isWhiteSpace s)))"

section \<open>The keyword fallback of the AI categorizer\<close>

text \<open>
  \<open>TRANSACTION_CATEGORIES\<close> is the list of category names the front end offers;
  \<open>fallbackCategorization\<close> is the local classifier used when the hosted model is not
  available. Its table is an object literal; \<open>Object.entries\<close> walks the string keys in
  insertion order, so the table is an association list in the order it is written.
\<close>

definition TRANSACTION_CATEGORIES :: "string list" where
  "TRANSACTION_CATEGORIES =
     [''Food'', ''Shopping'', ''Bills'', ''Entertainment'', ''Transport'', ''Services'',
      ''Investment'', ''Gift'', ''Other'']"

definition categoryKeywords :: "(string \<times> string list) list" where
  "categoryKeywords =
     [(''Food'',
       [''restaurant'', ''food'', ''meal'', ''lunch'', ''dinner'', ''breakfast'', ''coffee'',
        ''pizza'', ''burger'', ''grocery'', ''supermarket'', ''bakery'', ''cafe'', ''eat'',
        ''snack'', ''drink'', ''beverage'', ''kitchen'', ''cooking'', ''recipe'']),
      (''Shopping'',
       [''shopping'', ''store'', ''mall'', ''buy'', ''purchase'', ''retail'', ''clothes'',
        ''clothing'', ''fashion'', ''shoes'', ''accessories'', ''electronics'', ''gadget'',
        ''amazon'', ''ebay'', ''shop'', ''merchandise'', ''item'', ''product'']),
      (''Bills'',
       [''bill'', ''utility'', ''electricity'', ''gas'', ''water'', ''internet'', ''phone'',
        ''rent'', ''mortgage'', ''insurance'', ''subscription'', ''netflix'', ''spotify'',
        ''payment'', ''monthly'', ''annual'', ''service charge'', ''fee'']),
      (''Entertainment'',
       [''movie'', ''cinema'', ''theater'', ''concert'', ''music'', ''game'', ''gaming'',
        ''entertainment'', ''fun'', ''party'', ''club'', ''bar'', ''vacation'', ''travel'',
        ''holiday'', ''ticket'', ''event'', ''show'', ''sports'', ''hobby'']),
      (''Transport'',
       [''transport'', ''taxi'', ''uber'', ''lyft'', ''bus'', ''train'', ''subway'', ''flight'',
        ''airline'', ''fuel'', ''gas station'', ''parking'', ''car'', ''vehicle'',
        ''motorcycle'', ''bike'', ''commute'', ''travel'', ''journey'']),
      (''Services'',
       [''service'', ''repair'', ''maintenance'', ''cleaning'', ''haircut'', ''salon'',
        ''spa'', ''doctor'', ''medical'', ''hospital'', ''dentist'', ''lawyer'', ''consultant'',
        ''professional'', ''freelance'', ''contractor'', ''plumber'', ''electrician'']),
      (''Investment'',
       [''investment'', ''stock'', ''crypto'', ''bitcoin'', ''ethereum'', ''savings'',
        ''portfolio'', ''trading'', ''broker'', ''dividend'', ''interest'', ''fund'',
        ''etf'', ''bond'', ''financial'', ''bank'', ''deposit'']),
      (''Gift'',
       [''gift'', ''present'', ''birthday'', ''anniversary'', ''christmas'', ''holiday'',
        ''donation'', ''charity'', ''tip'', ''bonus'', ''reward'', ''prize'', ''wedding'',
        ''graduation'', ''celebration'', ''surprise''])]"

fun scanKeywords :: "string \<Rightarrow> string list \<Rightarrow> bool" where
  \<comment> \<open>The inner loop: does some keyword of the list occur in the lower-cased message?\<close>
  "scanKeywords lowerMessage [] = False"
| "scanKeywords lowerMessage (keyword # rest) =
     (if includes_str lowerMessage keyword then True else scanKeywords lowerMessage rest)"

fun scanEntries :: "string \<Rightarrow> (string \<times> string list) list \<Rightarrow> string option" where
  \<comment> \<open>The outer loop: the first entry whose inner loop returns; \<open>None\<close> when the loop
      runs to its end.\<close>
  "scanEntries lowerMessage [] = None"
| "scanEntries lowerMessage ((category, keywords) # rest) =
     (if scanKeywords lowerMessage keywords then Some category
      else scanEntries lowerMessage rest)"

definition fallbackCategorization :: "string \<Rightarrow> string" where
  "fallbackCategorization message =
     (let lowerMessage = toLowerCase message
      in case scanEntries lowerMessage categoryKeywords of
           Some category \<Rightarrow> category
         | None \<Rightarrow> ''Other'')"

section \<open>The dashboard: error classifier\<close>

text \<open>\<open>getErrorCategory\<close>: a chain of tests on the lower-cased error text, first hit wins.\<close>

definition getErrorCategory :: "string \<Rightarrow> string" where
  "getErrorCategory errorMessage =
     (let message = toLowerCase errorMessage
      in if includes_str message ''insufficient'' \<or> includes_str message ''depleted''
         then ''Insufficient Funds''
         else if includes_str message ''declined'' \<or> includes_str message ''cancelled''
         then ''User Cancelled''
         else if includes_str message ''network'' \<or> includes_str message ''connection''
         then ''Network Issues''
         else if includes_str message ''address'' \<or> includes_str message ''invalid''
         then ''Invalid Address''
         else if includes_str message ''timeout''
         then ''Timeout''
         else ''Other Errors'')"

section \<open>The dashboard: transactions and their groupings\<close>

datatype Status = success | failed | pending

text \<open>
  The \<open>Transaction\<close> interface of the dashboard. Optional fields are options; the
  numeric fields are never inspected by the grouping code. The field \<open>id\<close> is named
  \<open>txId\<close> here. Icons are emoji in the source; they are written by code point.
\<close>

record Transaction =
  txId :: string
  timestamp :: int
  amount :: string
  recipient :: "string option"
  sender :: "string option"
  message :: "string option"
  status :: Status
  errorMessage :: "string option"
  txHash :: "string option"
  hash :: "string option"
  network :: string
  fees :: "string option"
  blockHeight :: "int option"
  confirmations :: "int option"

record TransactionCategory =
  title :: string
  transactions :: "Transaction list"
  color :: string
  icon :: string

record MessageCategory =
  category :: string
  keywords' :: "string list"
  transactions :: "Transaction list"
  color :: string
  icon :: string

text \<open>The field \<open>keywords\<close> of \<open>MessageCategory\<close> is named \<open>keywords'\<close> here.\<close>

datatype error = TypeError

subsection \<open>categorizeTransactions\<close>

text \<open>
  \<open>failedByError\<close> is a \<open>reduce\<close> over the failed transactions into an object keyed by
  error type. The object is an association list in insertion order, which is the order
  \<open>Object.entries\<close> reads it in (no key is an integer index, and no error type names a
  property of \<open>Object.prototype\<close>).
\<close>

definition errorText :: "Transaction \<Rightarrow> string" where
  \<comment> \<open>\<open>tx.errorMessage || ''\<close>: the empty string is the only falsy string.\<close>
  "errorText tx = (case errorMessage tx of None \<Rightarrow> [] | Some e \<Rightarrow> e)"

definition failedByErrorStep ::
  "(string \<times> Transaction list) list \<Rightarrow> Transaction \<Rightarrow> (string \<times> Transaction list) list" where
  "failedByErrorStep acc tx =
     (let errorType = getErrorCategory (errorText tx);
          acc1 = (if map_of acc errorType = None then acc @ [(errorType, [])] else acc)
      in map (\<lambda>(k, v). if k = errorType then (k, v @ [tx]) else (k, v)) acc1)"

definition failedByError :: "Transaction list \<Rightarrow> (string \<times> Transaction list) list" where
  "failedByError txs = foldl failedByErrorStep [] (filter (\<lambda>tx. status tx = failed) txs)"

definition categorizeTransactions :: "Transaction list \<Rightarrow> TransactionCategory list" where
  "categorizeTransactions txs =
     (let successful = filter (\<lambda>tx. status tx = success) txs;
          pendingTxs = filter (\<lambda>tx. status tx = pending) txs;
          categories =
            [\<lparr>title = ''Successful Transactions'',
              TransactionCategory.transactions = successful,
              TransactionCategory.color = ''bg-green-100 border-green-300 text-green-800'',
              TransactionCategory.icon = ''U+2705''\<rparr>,
             \<lparr>title = ''Pending Transactions'',
              TransactionCategory.transactions = pendingTxs,
              TransactionCategory.color = ''bg-yellow-100 border-yellow-300 text-yellow-800'',
              TransactionCategory.icon = ''U+23F3''\<rparr>]
      in categories @
         map (\<lambda>(errorType, ftxs).
                \<lparr>title = ''Failed: '' @ errorType,
                 TransactionCategory.transactions = ftxs,
                 TransactionCategory.color = ''bg-red-100 border-red-300 text-red-800'',
                 TransactionCategory.icon = ''U+274C''\<rparr>)
             (failedByError txs))"

subsection \<open>categorizeByMessages\<close>

definition hasMessage :: "Transaction \<Rightarrow> bool" where
  \<comment> \<open>\<open>tx.message && tx.message.trim() !== ''\<close>: the field is present, not the empty
      string, and not blank once trimmed.\<close>
  "hasMessage tx =
     (case message tx of None \<Rightarrow> False | Some m \<Rightarrow> m \<noteq> [] \<and> trim m \<noteq> [])"

definition messageCategories :: "MessageCategory list" where
  "messageCategories =
     [\<lparr>category = ''Payments & Purchases'',
       keywords' = [''payment'', ''purchase'', ''buy'', ''pay'', ''invoice'', ''bill'',
                   ''shopping'', ''store''],
       transactions = [],
       color = ''bg-blue-100 border-blue-300 text-blue-800'',
       icon = ''U+1F4B3''\<rparr>,
      \<lparr>category = ''Gifts & Tips'',
       keywords' = [''gift'', ''tip'', ''donation'', ''birthday'', ''christmas'', ''present'',
                   ''thanks'', ''reward''],
       transactions = [],
       color = ''bg-pink-100 border-pink-300 text-pink-800'',
       icon = ''U+1F381''\<rparr>,
      \<lparr>category = ''Business & Work'',
       keywords' = [''salary'', ''work'', ''business'', ''contract'', ''service'', ''freelance'',
                   ''client'', ''project''],
       transactions = [],
       color = ''bg-indigo-100 border-indigo-300 text-indigo-800'',
       icon = ''U+1F4BC''\<rparr>,
      \<lparr>category = ''Family & Friends'',
       keywords' = [''family'', ''friend'', ''mom'', ''dad'', ''brother'', ''sister'', ''loan'',
                   ''borrow'', ''help''],
       transactions = [],
       color = ''bg-yellow-100 border-yellow-300 text-yellow-800'',
       icon = ''U+1F468 U+200D U+1F469 U+200D U+1F467 U+200D U+1F466''\<rparr>,
      \<lparr>category = ''Food & Dining'',
       keywords' = [''food'', ''dinner'', ''lunch'', ''restaurant'', ''coffee'', ''meal'',
                   ''pizza'', ''delivery''],
       transactions = [],
       color = ''bg-orange-100 border-orange-300 text-orange-800'',
       icon = ''U+1F37D U+FE0F''\<rparr>,
      \<lparr>category = ''Testing & Development'',
       keywords' = [''test'', ''testing'', ''demo'', ''example'', ''try'', ''sample'', ''debug'',
                   ''dev''],
       transactions = [],
       color = ''bg-purple-100 border-purple-300 text-purple-800'',
       icon = ''U+1F9EA''\<rparr>,
      \<lparr>category = ''Other Messages'',
       keywords' = [],
       transactions = [],
       color = ''bg-gray-100 border-gray-300 text-gray-800'',
       icon = ''U+1F4AC''\<rparr>]"

definition hasKeyword :: "MessageCategory \<Rightarrow> string \<Rightarrow> bool" where
  \<comment> \<open>\<open>category.keywords.some(keyword => message.includes(keyword.toLowerCase()))\<close>\<close>
  "hasKeyword cat msg = list_ex (\<lambda>keyword. includes_str msg (toLowerCase keyword)) (keywords' cat)"

fun scanCategories :: "MessageCategory list \<Rightarrow> string \<Rightarrow> nat list \<Rightarrow> nat option" where
  \<comment> \<open>The \<open>for\<close> loop over the indices handed in, leaving at the first category that
      has a keyword (\<open>break\<close>); \<open>None\<close> when the loop ends with \<open>categorized\<close> still
      false.\<close>
  "scanCategories cats msg [] = None"
| "scanCategories cats msg (i # rest) =
     (if hasKeyword (cats ! i) msg then Some i else scanCategories cats msg rest)"

definition categoryIndex :: "MessageCategory list \<Rightarrow> string \<Rightarrow> nat" where
  \<comment> \<open>The bucket the loop body chooses for a lower-cased message: the loop runs over
      \<open>0 .. length - 2\<close>, and the last entry takes what is left.\<close>
  "categoryIndex cats msg =
     (case scanCategories cats msg [0 ..< length cats - 1] of
        Some i \<Rightarrow> i
      | None \<Rightarrow> length cats - 1)"

definition pushTransaction ::
  "MessageCategory list \<Rightarrow> nat \<Rightarrow> Transaction \<Rightarrow> error + MessageCategory list" where
  \<comment> \<open>\<open>cats[i].transactions.push(tx)\<close>; reading a property of a missing entry throws.\<close>
  "pushTransaction cats i tx =
     (if i < length cats
      then Inr (cats[i := (cats ! i)\<lparr>transactions := transactions (cats ! i) @ [tx]\<rparr>])
      else Inl TypeError)"

definition categorizeOne ::
  "MessageCategory list \<Rightarrow> Transaction \<Rightarrow> error + MessageCategory list" where
  \<comment> \<open>The body of \<open>forEach\<close>. \<open>tx.message!.toLowerCase()\<close> throws on an absent message.\<close>
  "categorizeOne cats tx =
     (case message tx of
        None \<Rightarrow> Inl TypeError
      | Some m \<Rightarrow> pushTransaction cats (categoryIndex cats (toLowerCase m)) tx)"

fun forEachTx :: "MessageCategory list \<Rightarrow> Transaction list \<Rightarrow> error + MessageCategory list" where
  "forEachTx cats [] = Inr cats"
| "forEachTx cats (tx # rest) =
     (case categorizeOne cats tx of
        Inl e \<Rightarrow> Inl e
      | Inr cats' \<Rightarrow> forEachTx cats' rest)"

definition categorizeByMessages :: "Transaction list \<Rightarrow> error + MessageCategory list" where
  "categorizeByMessages txs =
     (let txsWithMessages = filter hasMessage txs
      in case forEachTx messageCategories txsWithMessages of
           Inl e \<Rightarrow> Inl e
         | Inr cats \<Rightarrow> Inr (filter (\<lambda>cat. length (transactions cat) > 0) cats))"

definition classifyMessage :: "string \<Rightarrow> string" where
  \<comment> \<open>The classifier that the loop body of \<open>categorizeByMessages\<close> applies to one
      message text: the name of the bucket it pushes to.\<close>
  "classifyMessage m =
     category (messageCategories ! categoryIndex messageCategories (toLowerCase m))"

section \<open>The specification's reading of the classifiers and groupings\<close>

text \<open>
  The definitions of this section follow the words of the specification, not the code;
  the theorems below compare them with the functions above.
\<close>

definition ciSubstring :: "string \<Rightarrow> string \<Rightarrow> bool" where
  \<comment> \<open>The keyword is a case-insensitive substring of the text.\<close>
  "ciSubstring keyword s = sublist (toLowerCase keyword) (toLowerCase s)"

definition firstMatch :: "(string \<times> string list) list \<Rightarrow> string \<Rightarrow> string \<Rightarrow> string" where
  \<comment> \<open>The name of the first category, in the order of the taxonomy, one of whose keywords
      is a case-insensitive substring of the text; the catch-all's name when there is
      none.\<close>
  "firstMatch taxonomy catchAll s =
     (case find (\<lambda>(name, kws). \<exists>k \<in> set kws. ciSubstring k s) taxonomy of
        Some (name, kws) \<Rightarrow> name
      | None \<Rightarrow> catchAll)"

definition messageTaxonomy :: "(string \<times> string list) list" where
  \<comment> \<open>The message-topic taxonomy without its catch-all, as names and keyword lists.\<close>
  "messageTaxonomy = map (\<lambda>cat. (category cat, keywords' cat)) (butlast messageCategories)"

definition errorCategoryNames :: "string list" where
  "errorCategoryNames =
     [''Insufficient Funds'', ''User Cancelled'', ''Network Issues'', ''Invalid Address'',
      ''Timeout'', ''Other Errors'']"

definition blankText :: "string option \<Rightarrow> bool" where
  \<comment> \<open>A text field that is absent, or blank after trimming.\<close>
  "blankText field = (case field of None \<Rightarrow> True | Some m \<Rightarrow> trim m = [])"

definition messageOf :: "Transaction \<Rightarrow> string" where
  "messageOf tx = (case message tx of None \<Rightarrow> [] | Some m \<Rightarrow> m)"

definition groupByTopic :: "Transaction list \<Rightarrow> MessageCategory list" where
  \<comment> \<open>Every category of the taxonomy, in its order, with the participating items that
      classify to it, in input order; then the empty buckets dropped.\<close>
  "groupByTopic txs =
     filter (\<lambda>cat. transactions cat \<noteq> [])
       (map (\<lambda>cat. cat\<lparr>transactions :=
                        filter (\<lambda>tx. classifyMessage (messageOf tx) = category cat)
                          (filter (\<lambda>tx. \<not> blankText (message tx)) txs)\<rparr>)
            messageCategories)"

definition bucketsAfter :: "MessageCategory list \<Rightarrow> Transaction list \<Rightarrow> MessageCategory list" where
  \<comment> \<open>The buckets once the loop has run over the given transactions: every entry has
      gained, in input order, the transactions whose index it is.\<close>
  "bucketsAfter cats txs =
     map (\<lambda>(i, cat). cat\<lparr>transactions := transactions cat @
                           filter (\<lambda>tx. categoryIndex cats (toLowerCase (messageOf tx)) = i) txs\<rparr>)
         (enumerate 0 cats)"

fun firstAppearance :: "'a list \<Rightarrow> 'a list" where
  \<comment> \<open>The distinct elements of a list in the order of their first appearance.\<close>
  "firstAppearance [] = []"
| "firstAppearance (x # xs) = x # firstAppearance (filter (\<lambda>y. y \<noteq> x) xs)"

definition groupFailedByError :: "Transaction list \<Rightarrow> (string \<times> Transaction list) list" where
  \<comment> \<open>The failed items, classified by their error text; one bucket per error category
      met, in the order of first appearance, each bucket in input order.\<close>
  "groupFailedByError txs =
     (let failedTxs = filter (\<lambda>tx. status tx = failed) txs
      in map (\<lambda>k. (k, filter (\<lambda>tx. getErrorCategory (errorText tx) = k) failedTxs))
             (firstAppearance (map (\<lambda>tx. getErrorCategory (errorText tx)) failedTxs)))"

subsection \<open>Sample transactions\<close>

definition sampleTx :: "string \<Rightarrow> Status \<Rightarrow> string option \<Rightarrow> string option \<Rightarrow> Transaction" where
  "sampleTx i st msg err =
     \<lparr>txId = i, timestamp = 0, amount = ''1.000000'', recipient = None, sender = None,
      message = msg, status = st, errorMessage = err, txHash = None, hash = None,
      network = ''preprod'', fees = None, blockHeight = None, confirmations = None\<rparr>"

section \<open>Evaluating the text primitives\<close>

lemma toLowerCase_Nil [simp]: "toLowerCase [] = []"
  by (simp add: toLowerCase_def)

lemma toLowerCase_Cons [simp]: "toLowerCase (c # cs) = toLowerChar c # toLowerCase cs"
  by (simp add: toLowerCase_def)

lemma toLowerChar_Char:
  "toLowerChar (Char b0 b1 b2 b3 b4 b5 b6 b7) =
     (if \<not> b5 \<and> b6 \<and> (\<not> b7 \<and> (b0 \<or> b1 \<or> b2 \<or> b3 \<or> b4) \<and> \<not> (b4 \<and> b3 \<and> (b2 \<or> (b1 \<and> b0)))
                      \<or> b7 \<and> \<not> (b4 \<and> b2 \<and> b1 \<and> b0))
      then Char b0 b1 b2 b3 b4 True b6 b7 else Char b0 b1 b2 b3 b4 b5 b6 b7)"
  by (cases b0; cases b1; cases b2; cases b3; cases b4; cases b5; cases b6; cases b7;
      simp add: toLowerChar_def char_of_def bit_0)

lemma toLowerChar_idem: "toLowerChar (toLowerChar c) = toLowerChar c"
  by (cases c) (auto simp add: toLowerChar_Char)

lemma toLowerCase_idem: "toLowerCase (toLowerCase s) = toLowerCase s"
  by (simp add: toLowerCase_def toLowerChar_idem)

lemma isWhiteSpace_Char:
  "isWhiteSpace (Char b0 b1 b2 b3 b4 b5 b6 b7) =
     (\<not> b6 \<and> (\<not> b7 \<and> \<not> b5 \<and> \<not> b4 \<and> b3 \<and> (\<not> b2 \<and> (b1 \<or> b0) \<or> b2 \<and> \<not> b1)
            \<or> b5 \<and> \<not> b4 \<and> \<not> b3 \<and> \<not> b2 \<and> \<not> b1 \<and> \<not> b0))"
  by (cases b0; cases b1; cases b2; cases b3; cases b4; cases b5; cases b6; cases b7;
      simp add: isWhiteSpace_def)

lemma includes_str_simps [simp]:
  "includes_str s [] = True"
  "includes_str [] (k # ks) = False"
  "includes_str (c # cs) (k # ks) = (prefix (k # ks) (c # cs) \<or> includes_str cs (k # ks))"
  by (simp_all add: includes_str_def sublist_Cons_right)

section \<open>The classifiers are first-match scans\<close>

lemma scanKeywords_iff: "scanKeywords m ks = (\<exists>k \<in> set ks. includes_str m k)"
  by (induction ks) auto

lemma scanEntries_find:
  "scanEntries m es = map_option fst (find (\<lambda>(name, kws). \<exists>k \<in> set kws. includes_str m k) es)"
  by (induction es) (auto simp add: scanKeywords_iff)

lemma scanEntries_mem: "scanEntries m es = Some c \<Longrightarrow> c \<in> fst ` set es"
  by (induction es) (auto split: if_splits)

lemma categoryKeywords_lower:
  "list_all (\<lambda>(name, kws). list_all (\<lambda>k. toLowerCase k = k) kws) categoryKeywords"
  by (simp add: categoryKeywords_def toLowerChar_Char)

lemma find_cong_set: "(\<And>x. x \<in> set xs \<Longrightarrow> P x = Q x) \<Longrightarrow> find P xs = find Q xs"
  by (induction xs) auto

lemma find_map_comp: "find P (map f xs) = map_option f (find (\<lambda>x. P (f x)) xs)"
  by (induction xs) auto

lemma find_snoc:
  "find P (xs @ [x]) = (case find P xs of None \<Rightarrow> (if P x then Some x else None) | Some y \<Rightarrow> Some y)"
  by (induction xs) auto

lemma find_mem: "find P xs = Some x \<Longrightarrow> x \<in> set xs"
  by (induction xs) (auto split: if_splits)

lemma find_index_nth:
  "map_option (\<lambda>i. xs ! i) (find (\<lambda>i. P (xs ! i)) [0 ..< length xs]) = find P xs"
proof (induction xs rule: rev_induct)
  case Nil
  show ?case by simp
next
  case (snoc x xs)
  have "find (\<lambda>i. P ((xs @ [x]) ! i)) [0 ..< length xs] = find (\<lambda>i. P (xs ! i)) [0 ..< length xs]"
    by (rule find_cong_set) (simp add: nth_append)
  moreover have "\<And>i. find (\<lambda>i. P (xs ! i)) [0 ..< length xs] = Some i \<Longrightarrow> i < length xs"
    by (drule find_mem) simp
  ultimately show ?case
    using snoc.IH
    by (auto simp add: find_snoc nth_append split: option.splits)
qed

lemma fallbackCategorization_firstMatch:
  "fallbackCategorization s = firstMatch categoryKeywords ''Other'' s"
proof -
  have low: "toLowerCase k = k" if "(name, kws) \<in> set categoryKeywords" "k \<in> set kws" for name kws k
    using categoryKeywords_lower that by (auto simp add: list_all_iff)
  have "find (\<lambda>(name, kws). \<exists>k \<in> set kws. includes_str (toLowerCase s) k) categoryKeywords
      = find (\<lambda>(name, kws). \<exists>k \<in> set kws. ciSubstring k s) categoryKeywords"
    by (rule find_cong_set) (auto simp add: ciSubstring_def includes_str_def low)
  then show ?thesis
    by (simp add: fallbackCategorization_def firstMatch_def scanEntries_find
        split: option.splits prod.splits)
qed

lemma scanCategories_find:
  "scanCategories cats msg is = find (\<lambda>i. hasKeyword (cats ! i) msg) is"
  by (induction "is") auto

lemma hasKeyword_ciSubstring:
  "hasKeyword cat (toLowerCase s) = (\<exists>k \<in> set (keywords' cat). ciSubstring k s)"
  by (simp add: hasKeyword_def list_ex_iff ciSubstring_def includes_str_def)

lemma chosen_category:
  assumes "cats \<noteq> []"
  shows "cats ! categoryIndex cats msg =
           (case find (\<lambda>cat. hasKeyword cat msg) (butlast cats) of
              Some cat \<Rightarrow> cat
            | None \<Rightarrow> last cats)"
proof -
  let ?bl = "butlast cats"
  have len: "length cats - 1 = length ?bl" by simp
  have eq: "find (\<lambda>i. hasKeyword (cats ! i) msg) [0 ..< length ?bl]
          = find (\<lambda>i. hasKeyword (?bl ! i) msg) [0 ..< length ?bl]"
    by (rule find_cong_set) (simp add: nth_butlast)
  show ?thesis
  proof (cases "find (\<lambda>i. hasKeyword (?bl ! i) msg) [0 ..< length ?bl]")
    case None
    then have "find (\<lambda>cat. hasKeyword cat msg) ?bl = None"
      using find_index_nth [of ?bl "\<lambda>cat. hasKeyword cat msg"] by simp
    with None eq assms show ?thesis
      unfolding categoryIndex_def scanCategories_find len
      by (simp add: last_conv_nth)
  next
    case (Some i)
    then have "i < length ?bl"
      by (auto dest: find_mem)
    moreover from Some have "find (\<lambda>cat. hasKeyword cat msg) ?bl = Some (?bl ! i)"
      using find_index_nth [of ?bl "\<lambda>cat. hasKeyword cat msg"] by simp
    ultimately show ?thesis
      using Some eq
      unfolding categoryIndex_def scanCategories_find len
      by (simp add: nth_butlast)
  qed
qed

lemma messageCategories_nonempty: "messageCategories \<noteq> []"
  by (simp add: messageCategories_def)

lemma last_messageCategories: "category (last messageCategories) = ''Other Messages''"
  by (simp add: messageCategories_def)

lemma classifyMessage_firstMatch:
  "classifyMessage s = firstMatch messageTaxonomy ''Other Messages'' s"
  unfolding classifyMessage_def chosen_category [OF messageCategories_nonempty]
    firstMatch_def messageTaxonomy_def find_map_comp
  by (simp add: hasKeyword_ciSubstring last_messageCategories split: option.splits)

text \<open>
  C1: for every text, the message classifier returns the name of the first category, in
  the order of the taxonomy, that has a keyword which is a case-insensitive substring of
  the text, and the catch-all's name when no other category matches. This holds of the
  classifier inside \<open>categorizeByMessages\<close> and of \<open>fallbackCategorization\<close> alike. In
  particular "test payment" is classified as "Payments & Purchases", not as
  "Testing & Development".
\<close>

theorem classifier_first_match:
  "classifyMessage s = firstMatch messageTaxonomy ''Other Messages'' s
   \<and> fallbackCategorization s = firstMatch categoryKeywords ''Other'' s
   \<and> map fst messageTaxonomy =
       [''Payments & Purchases'', ''Gifts & Tips'', ''Business & Work'', ''Family & Friends'',
        ''Food & Dining'', ''Testing & Development'']
   \<and> classifyMessage ''test payment'' = ''Payments & Purchases''
   \<and> classifyMessage ''test payment'' \<noteq> ''Testing & Development''"
proof -
  have "map fst messageTaxonomy =
       [''Payments & Purchases'', ''Gifts & Tips'', ''Business & Work'', ''Family & Friends'',
        ''Food & Dining'', ''Testing & Development'']"
    by (simp add: messageTaxonomy_def messageCategories_def)
  moreover have "classifyMessage ''test payment'' = ''Payments & Purchases''"
    by (simp add: classifyMessage_def categoryIndex_def messageCategories_def hasKeyword_def
        toLowerChar_Char upt_rec)
  ultimately show ?thesis
    by (simp add: classifyMessage_firstMatch fallbackCategorization_firstMatch)
qed

section \<open>The error classifier\<close>

text \<open>
  C5: the error classifier maps "Insufficient funds in wallet" to "Insufficient Funds",
  "User declined the transaction" to "User Cancelled" and "Network timeout occurred" to
  "Network Issues" (not "Timeout"): the network test comes before the timeout test.
\<close>

theorem getErrorCategory_examples:
  "getErrorCategory ''Insufficient funds in wallet'' = ''Insufficient Funds''
   \<and> getErrorCategory ''User declined the transaction'' = ''User Cancelled''
   \<and> getErrorCategory ''Network timeout occurred'' = ''Network Issues''
   \<and> getErrorCategory ''Network timeout occurred'' \<noteq> ''Timeout''
   \<and> getErrorCategory ''timeout occurred'' = ''Timeout''"
  by (simp add: getErrorCategory_def toLowerChar_Char)

section \<open>Totality, blank input and case\<close>

lemma categoryIndex_less: "cats \<noteq> [] \<Longrightarrow> categoryIndex cats msg < length cats"
  unfolding categoryIndex_def scanCategories_find
  by (auto split: option.splits dest!: find_mem)

lemma fallback_names: "fst ` set categoryKeywords \<subseteq> set TRANSACTION_CATEGORIES"
  by (simp add: categoryKeywords_def TRANSACTION_CATEGORIES_def)

text \<open>
  C7: each classifier is a total function on strings (the empty string included; every
  function here is defined by terminating recursion on the table) and returns a name of
  its taxonomy: \<open>fallbackCategorization\<close> one of \<open>TRANSACTION_CATEGORIES\<close>, the
  dashboard's message classifier one of the seven category names of its table, and
  \<open>getErrorCategory\<close> one of the six error category names.
\<close>

theorem classifier_result_in_taxonomy:
  "fallbackCategorization s \<in> set TRANSACTION_CATEGORIES
   \<and> classifyMessage s \<in> set (map category messageCategories)
   \<and> getErrorCategory s \<in> set errorCategoryNames
   \<and> fallbackCategorization [] \<in> set TRANSACTION_CATEGORIES
   \<and> getErrorCategory [] \<in> set errorCategoryNames"
proof -
  have fb: "fallbackCategorization t \<in> set TRANSACTION_CATEGORIES" for t
  proof (cases "scanEntries (toLowerCase t) categoryKeywords")
    case None
    then show ?thesis
      by (simp add: fallbackCategorization_def TRANSACTION_CATEGORIES_def)
  next
    case (Some c)
    then have "c \<in> fst ` set categoryKeywords"
      by (rule scanEntries_mem)
    with Some fallback_names show ?thesis
      by (auto simp add: fallbackCategorization_def)
  qed
  have msg: "classifyMessage s \<in> set (map category messageCategories)"
    unfolding classifyMessage_def
    using categoryIndex_less [OF messageCategories_nonempty] by simp
  have err: "getErrorCategory t \<in> set errorCategoryNames" for t
    by (simp add: getErrorCategory_def errorCategoryNames_def Let_def)
  from fb msg err show ?thesis by simp
qed

lemma toLowerChar_white: "isWhiteSpace c \<Longrightarrow> toLowerChar c = c"
  by (cases c) (auto simp add: toLowerChar_Char isWhiteSpace_Char)

lemma toLowerCase_white: "\<forall>c \<in> set s. isWhiteSpace c \<Longrightarrow> toLowerCase s = s"
  by (induction s) (simp_all add: toLowerChar_white)

lemma includes_str_hd: "includes_str s (k # ks) \<Longrightarrow> k \<in> set s"
  unfolding includes_str_def by (auto dest: set_mono_sublist)

lemma white_no_keyword:
  "\<forall>c \<in> set s. isWhiteSpace c \<Longrightarrow> \<not> isWhiteSpace k \<Longrightarrow> includes_str s (k # ks) = False"
  by (auto dest: includes_str_hd)

lemma white_catch_all:
  assumes "\<forall>c \<in> set s. isWhiteSpace c"
  shows "fallbackCategorization s = ''Other''
         \<and> classifyMessage s = ''Other Messages''
         \<and> getErrorCategory s = ''Other Errors''"
proof -
  have low: "toLowerCase s = s"
    using assms by (rule toLowerCase_white)
  have no: "includes_str s (k # ks) = False" if "\<not> isWhiteSpace k" for k ks
    using assms that by (rule white_no_keyword)
  have "fallbackCategorization s = ''Other''"
    by (simp add: fallbackCategorization_def low categoryKeywords_def no isWhiteSpace_Char
        del: includes_str_simps)
  moreover have "classifyMessage s = ''Other Messages''"
    by (simp add: classifyMessage_def categoryIndex_def low messageCategories_def hasKeyword_def
        toLowerChar_Char upt_rec no isWhiteSpace_Char del: includes_str_simps)
  moreover have "getErrorCategory s = ''Other Errors''"
    by (simp add: getErrorCategory_def low no isWhiteSpace_Char del: includes_str_simps)
  ultimately show ?thesis by simp
qed

text \<open>
  C8: a string that is empty or made of white space only is classified as the catch-all:
  "Other" by \<open>fallbackCategorization\<close>, "Other Messages" by the dashboard's message
  classifier and "Other Errors" by \<open>getErrorCategory\<close>, since every keyword of the three
  tables starts with a character that is not white space.
\<close>

theorem blank_classified_as_catch_all:
  assumes "\<forall>c \<in> set s. isWhiteSpace c"
  shows "fallbackCategorization s = ''Other''
         \<and> classifyMessage s = ''Other Messages''
         \<and> getErrorCategory s = ''Other Errors''"
  using assms by (rule white_catch_all)

theorem blank_classified_as_catch_all_witness:
  "list_all isWhiteSpace [CHR '' '', CHR 0x09, CHR 0xA0]
   \<and> fallbackCategorization [CHR '' '', CHR 0x09, CHR 0xA0] = ''Other''
   \<and> classifyMessage [CHR '' '', CHR 0x09, CHR 0xA0] = ''Other Messages''
   \<and> getErrorCategory [CHR '' '', CHR 0x09, CHR 0xA0] = ''Other Errors''
   \<and> fallbackCategorization [] = ''Other''
   \<and> classifyMessage [] = ''Other Messages''
   \<and> getErrorCategory [] = ''Other Errors''"
proof -
  have h: "\<forall>c \<in> set [CHR '' '', CHR 0x09, CHR 0xA0]. isWhiteSpace c"
    by (simp add: isWhiteSpace_Char)
  have e: "\<forall>c \<in> set []. isWhiteSpace c"
    by simp
  from h blank_classified_as_catch_all [OF h] blank_classified_as_catch_all [OF e]
  show ?thesis by (simp add: list_all_iff)
qed

text \<open>
  C9: the classifiers are case-insensitive: a string and its lower-cased form are
  classified alike; "GIFT for mom" and "gift for mom" both go to the gift category.
\<close>

theorem classifier_case_insensitive:
  "fallbackCategorization (toLowerCase s) = fallbackCategorization s
   \<and> classifyMessage (toLowerCase s) = classifyMessage s
   \<and> getErrorCategory (toLowerCase s) = getErrorCategory s
   \<and> toLowerCase ''GIFT for mom'' = ''gift for mom''
   \<and> classifyMessage ''GIFT for mom'' = ''Gifts & Tips''
   \<and> classifyMessage ''gift for mom'' = ''Gifts & Tips''
   \<and> fallbackCategorization ''GIFT for mom'' = ''Gift''
   \<and> fallbackCategorization ''gift for mom'' = ''Gift''"
proof -
  have low: "toLowerCase ''GIFT for mom'' = ''gift for mom''"
    by (simp add: toLowerChar_Char)
  have gen: "fallbackCategorization (toLowerCase t) = fallbackCategorization t
      \<and> classifyMessage (toLowerCase t) = classifyMessage t
      \<and> getErrorCategory (toLowerCase t) = getErrorCategory t" for t
    by (simp add: fallbackCategorization_def classifyMessage_def getErrorCategory_def
        toLowerCase_idem)
  have m: "classifyMessage ''gift for mom'' = ''Gifts & Tips''"
    by (simp add: classifyMessage_def categoryIndex_def messageCategories_def hasKeyword_def
        toLowerChar_Char upt_rec)
  have f: "fallbackCategorization ''gift for mom'' = ''Gift''"
    by (simp add: fallbackCategorization_def categoryKeywords_def toLowerChar_Char)
  from gen [of "''GIFT for mom''"] low m f
  have "classifyMessage ''GIFT for mom'' = ''Gifts & Tips''"
    and "fallbackCategorization ''GIFT for mom'' = ''Gift''"
    by simp_all
  with gen [of s] low m f show ?thesis by simp
qed

section \<open>The failure-reason grouping\<close>

lemma set_firstAppearance: "set (firstAppearance xs) = set xs"
  by (induction xs rule: firstAppearance.induct) auto

lemma distinct_firstAppearance: "distinct (firstAppearance xs)"
  by (induction xs rule: firstAppearance.induct) (auto simp add: set_firstAppearance)

lemma failedByErrorStep_known:
  assumes "getErrorCategory (errorText tx) \<in> fst ` set acc"
  shows "failedByErrorStep acc tx =
           map (\<lambda>(k, v). if k = getErrorCategory (errorText tx) then (k, v @ [tx]) else (k, v)) acc"
  using assms by (simp add: failedByErrorStep_def Let_def map_of_eq_None_iff)

lemma map_other_keys:
  "c \<notin> fst ` set acc \<Longrightarrow> map (\<lambda>(k, v). if k = c then (k, f v) else (k, v)) acc = acc"
  by (induction acc) auto

lemma failedByErrorStep_new:
  assumes "getErrorCategory (errorText tx) \<notin> fst ` set acc"
  shows "failedByErrorStep acc tx = acc @ [(getErrorCategory (errorText tx), [tx])]"
  using assms by (simp add: failedByErrorStep_def Let_def map_of_eq_None_iff map_other_keys)

lemma reduce_failedByErrorStep:
  "foldl failedByErrorStep acc txs =
     map (\<lambda>(k, v). (k, v @ filter (\<lambda>tx. getErrorCategory (errorText tx) = k) txs)) acc @
     map (\<lambda>k. (k, filter (\<lambda>tx. getErrorCategory (errorText tx) = k) txs))
       (firstAppearance (filter (\<lambda>k. k \<notin> fst ` set acc)
                           (map (\<lambda>tx. getErrorCategory (errorText tx)) txs)))"
proof (induction txs arbitrary: acc)
  case Nil
  show ?case by (simp add: case_prod_unfold)
next
  case (Cons tx txs)
  let ?c = "\<lambda>tx. getErrorCategory (errorText tx)"
  let ?F = "\<lambda>ts k. filter (\<lambda>t. ?c t = k) ts"
  have tail: "map (\<lambda>k. (k, ?F (tx # txs) k)) ks = map (\<lambda>k. (k, ?F txs k)) ks"
    if "?c tx \<notin> set ks" for ks
    using that by (intro map_cong) auto
  show ?case
  proof (cases "?c tx \<in> fst ` set acc")
    case True
    let ?acc' = "map (\<lambda>(k, v). if k = ?c tx then (k, v @ [tx]) else (k, v)) acc"
    let ?ks = "firstAppearance (filter (\<lambda>k. k \<notin> fst ` set acc) (map ?c txs))"
    have keys: "fst ` set ?acc' = fst ` set acc"
      by (force simp add: image_iff split: if_splits)
    have head: "map (\<lambda>(k, v). (k, v @ ?F txs k)) ?acc' = map (\<lambda>(k, v). (k, v @ ?F (tx # txs) k)) acc"
      by (induction acc) auto
    have "?c tx \<notin> set ?ks"
      using True by (simp add: set_firstAppearance)
    note tail' = tail [OF this]
    have "foldl failedByErrorStep acc (tx # txs) = foldl failedByErrorStep ?acc' txs"
      using True by (simp add: failedByErrorStep_known)
    also have "\<dots> = map (\<lambda>(k, v). (k, v @ ?F txs k)) ?acc' @ map (\<lambda>k. (k, ?F txs k)) ?ks"
      unfolding Cons.IH [of ?acc'] keys ..
    also have "\<dots> = map (\<lambda>(k, v). (k, v @ ?F (tx # txs) k)) acc @ map (\<lambda>k. (k, ?F (tx # txs) k)) ?ks"
      unfolding head tail' ..
    also have "?ks = firstAppearance (filter (\<lambda>k. k \<notin> fst ` set acc) (map ?c (tx # txs)))"
      using True by simp
    finally show ?thesis .
  next
    case False
    let ?acc' = "acc @ [(?c tx, [tx])]"
    let ?ks = "firstAppearance (filter (\<lambda>k. k \<notin> fst ` set ?acc') (map ?c txs))"
    have flt: "filter (\<lambda>k. k \<notin> fst ` set ?acc') ks
             = filter (\<lambda>y. y \<noteq> ?c tx) (filter (\<lambda>k. k \<notin> fst ` set acc) ks)" for ks
      by (induction ks) auto
    have head: "map (\<lambda>(k, v). (k, v @ ?F txs k)) acc = map (\<lambda>(k, v). (k, v @ ?F (tx # txs) k)) acc"
      using False by (intro map_cong) (auto simp add: image_iff)
    have "?c tx \<notin> set ?ks"
      by (simp add: set_firstAppearance)
    note tail' = tail [OF this]
    have "foldl failedByErrorStep acc (tx # txs) = foldl failedByErrorStep ?acc' txs"
      using False by (simp add: failedByErrorStep_new)
    also have "\<dots> = map (\<lambda>(k, v). (k, v @ ?F txs k)) ?acc' @ map (\<lambda>k. (k, ?F txs k)) ?ks"
      by (rule Cons.IH)
    also have "\<dots> = map (\<lambda>(k, v). (k, v @ ?F (tx # txs) k)) acc
                     @ map (\<lambda>k. (k, ?F (tx # txs) k)) (?c tx # ?ks)"
      by (auto simp add: head set_firstAppearance)
    also have "?c tx # ?ks = firstAppearance (filter (\<lambda>k. k \<notin> fst ` set acc) (map ?c (tx # txs)))"
      using False unfolding flt by simp
    finally show ?thesis .
  qed
qed

lemma failedByError_grouping: "failedByError txs = groupFailedByError txs"
  by (simp add: failedByError_def groupFailedByError_def reduce_failedByErrorStep Let_def)

section \<open>The message-topic grouping\<close>

lemma hasMessage_blankText: "hasMessage tx = (\<not> blankText (message tx))"
  by (auto simp add: hasMessage_def blankText_def trim_def split: option.splits)

lemma categoryIndex_cong:
  assumes "map keywords' cats' = map keywords' cats"
  shows "categoryIndex cats' msg = categoryIndex cats msg"
proof -
  have len: "length cats' = length cats"
    using assms by (rule map_eq_imp_length_eq)
  have "hasKeyword (cats' ! i) msg = hasKeyword (cats ! i) msg" if "i < length cats" for i
  proof -
    have "keywords' (cats' ! i) = map keywords' cats' ! i"
      using that len by simp
    also have "\<dots> = keywords' (cats ! i)"
      using that by (simp add: assms)
    finally show ?thesis
      by (simp add: hasKeyword_def)
  qed
  then have "find (\<lambda>i. hasKeyword (cats' ! i) msg) [0 ..< length cats - 1]
           = find (\<lambda>i. hasKeyword (cats ! i) msg) [0 ..< length cats - 1]"
    by (intro find_cong_set) simp
  then show ?thesis
    unfolding categoryIndex_def scanCategories_find len by simp
qed

lemma map_enumerate_snd: "map (\<lambda>(i, x). f x) (enumerate n xs) = map f xs"
proof -
  have "map (\<lambda>(i, x). f x) (enumerate n xs) = map (f \<circ> snd) (enumerate n xs)"
    by (simp add: case_prod_unfold comp_def)
  also have "\<dots> = map f (map snd (enumerate n xs))"
    by (simp only: map_map)
  finally show ?thesis
    by (simp only: map_snd_enumerate)
qed

lemma forEachTx_buckets:
  assumes "cats \<noteq> []" and "\<forall>tx \<in> set txs. message tx \<noteq> None"
  shows "forEachTx cats txs = Inr (bucketsAfter cats txs)"
  using assms
proof (induction txs arbitrary: cats)
  case Nil
  have "map (\<lambda>(i, cat). cat) (enumerate 0 cats) = cats"
    using map_enumerate_snd [of "\<lambda>cat. cat" 0 cats] by simp
  then show ?case
    by (simp add: bucketsAfter_def)
next
  case (Cons tx txs)
  from Cons.prems obtain m where m: "message tx = Some m"
    by auto
  let ?j = "categoryIndex cats (toLowerCase m)"
  let ?cats' = "cats[?j := (cats ! ?j)\<lparr>transactions := transactions (cats ! ?j) @ [tx]\<rparr>]"
  have j: "?j < length cats"
    using Cons.prems(1) by (rule categoryIndex_less)
  have one: "categorizeOne cats tx = Inr ?cats'"
    using j by (simp add: categorizeOne_def m pushTransaction_def)
  have kw: "map keywords' ?cats' = map keywords' cats"
    using j by (simp add: list_eq_iff_nth_eq nth_list_update)
  have idx: "categoryIndex ?cats' msg = categoryIndex cats msg" for msg
    using kw by (rule categoryIndex_cong)
  have ne: "?cats' \<noteq> []"
    using Cons.prems(1) by simp
  have "forEachTx cats (tx # txs) = forEachTx ?cats' txs"
    by (simp add: one)
  also have "\<dots> = Inr (bucketsAfter ?cats' txs)"
    using ne Cons.prems(2) by (intro Cons.IH) simp_all
  also have "bucketsAfter ?cats' txs = bucketsAfter cats (tx # txs)"
    using j
    by (auto simp add: bucketsAfter_def idx list_eq_iff_nth_eq nth_enumerate_eq nth_list_update
        messageOf_def m)
  finally show ?case .
qed

lemma category_eq_index:
  assumes "i < length messageCategories" "j < length messageCategories"
  shows "(category (messageCategories ! i) = category (messageCategories ! j)) = (i = j)"
proof -
  have "distinct (map category messageCategories)"
    by (simp add: messageCategories_def)
  from nth_eq_iff_index_eq [OF this, of i j] assms show ?thesis
    by simp
qed

lemma messageCategories_empty: "cat \<in> set messageCategories \<Longrightarrow> transactions cat = []"
  by (auto simp add: messageCategories_def)

lemma categorizeByMessages_grouping: "categorizeByMessages txs = Inr (groupByTopic txs)"
proof -
  let ?P = "\<lambda>tx. \<not> blankText (message tx)"
  have flt: "filter hasMessage txs = filter ?P txs"
    by (rule filter_cong) (simp_all add: hasMessage_blankText)
  have some: "\<forall>tx \<in> set (filter ?P txs). message tx \<noteq> None"
    by (auto simp add: blankText_def split: option.splits)
  have run: "forEachTx messageCategories (filter ?P txs) = Inr (bucketsAfter messageCategories (filter ?P txs))"
    using messageCategories_nonempty some by (rule forEachTx_buckets)
  have "bucketsAfter messageCategories ts =
          map (\<lambda>cat. cat\<lparr>transactions := filter (\<lambda>tx. classifyMessage (messageOf tx) = category cat) ts\<rparr>)
              messageCategories" for ts
  proof -
    have "bucketsAfter messageCategories ts =
            map (\<lambda>(i, cat). cat\<lparr>transactions := filter (\<lambda>tx. classifyMessage (messageOf tx) = category cat) ts\<rparr>)
                (enumerate 0 messageCategories)"
      unfolding bucketsAfter_def
    proof (rule map_cong [OF refl], clarify)
      fix i cat
      assume "(i, cat) \<in> set (enumerate 0 messageCategories)"
      then have i: "i < length messageCategories" and cat: "messageCategories ! i = cat"
        by (simp_all add: in_set_enumerate_eq)
      then have empty: "transactions cat = []"
        using messageCategories_empty [of cat] by auto
      have "(categoryIndex messageCategories (toLowerCase (messageOf tx)) = i)
          = (classifyMessage (messageOf tx) = category cat)" for tx
        unfolding classifyMessage_def cat [symmetric]
        using category_eq_index [OF categoryIndex_less [OF messageCategories_nonempty] i]
        by simp
      with empty show "cat\<lparr>transactions := transactions cat @
             filter (\<lambda>tx. categoryIndex messageCategories (toLowerCase (messageOf tx)) = i) ts\<rparr>
          = cat\<lparr>transactions := filter (\<lambda>tx. classifyMessage (messageOf tx) = category cat) ts\<rparr>"
        by simp
    qed
    then show ?thesis
      by (simp only: map_enumerate_snd)
  qed
  with run flt show ?thesis
    by (simp add: categorizeByMessages_def groupByTopic_def)
qed

section \<open>What the groupings return\<close>

text \<open>
  C3: the message-topic grouping classifies every participating item, appends it to the
  bucket of its category and then drops the buckets left empty; the buckets that remain
  are in the order of the taxonomy, and each holds its items in input order. No run of
  it throws.
\<close>

theorem message_grouping:
  "categorizeByMessages txs = Inr (groupByTopic txs)
   \<and> map category messageCategories =
       [''Payments & Purchases'', ''Gifts & Tips'', ''Business & Work'', ''Family & Friends'',
        ''Food & Dining'', ''Testing & Development'', ''Other Messages'']
   \<and> map_sum id (map (\<lambda>cat. (category cat, map txId (transactions cat))))
        (categorizeByMessages
           [sampleTx ''1'' success (Some ''test run'') None,
            sampleTx ''2'' success (Some ''pizza night'') None,
            sampleTx ''3'' success (Some ''   '') None,
            sampleTx ''4'' pending (Some ''Test payment'') None,
            sampleTx ''5'' failed None (Some ''timeout''),
            sampleTx ''6'' success (Some ''dev demo'') None])
       = Inr [(''Payments & Purchases'', [''4'']), (''Food & Dining'', [''2'']),
              (''Testing & Development'', [''1'', ''6''])]"
proof -
  have names: "map category messageCategories =
       [''Payments & Purchases'', ''Gifts & Tips'', ''Business & Work'', ''Family & Friends'',
        ''Food & Dining'', ''Testing & Development'', ''Other Messages'']"
    by (simp add: messageCategories_def)
  have run: "map_sum id (map (\<lambda>cat. (category cat, map txId (transactions cat))))
        (categorizeByMessages
           [sampleTx ''1'' success (Some ''test run'') None,
            sampleTx ''2'' success (Some ''pizza night'') None,
            sampleTx ''3'' success (Some ''   '') None,
            sampleTx ''4'' pending (Some ''Test payment'') None,
            sampleTx ''5'' failed None (Some ''timeout''),
            sampleTx ''6'' success (Some ''dev demo'') None])
       = Inr [(''Payments & Purchases'', [''4'']), (''Food & Dining'', [''2'']),
              (''Testing & Development'', [''1'', ''6''])]"
    by (simp add: categorizeByMessages_def hasMessage_def trim_def isWhiteSpace_Char
        categorizeOne_def pushTransaction_def categoryIndex_def hasKeyword_def
        messageCategories_def toLowerChar_Char sampleTx_def upt_rec)
  from categorizeByMessages_grouping [of txs] names run show ?thesis
    by (simp only: simp_thms)
qed

text \<open>
  C4: in the failure-reason grouping only the transactions whose status is \<open>failed\<close>
  take part, each classified by its error text; a bucket comes into being when the first
  item of its category is met, so the buckets are in the order of first appearance and
  not in the order of the tests of \<open>getErrorCategory\<close>. \<open>categorizeTransactions\<close> lists
  them in that order after its two fixed entries.
\<close>

theorem failure_grouping_first_appearance:
  "failedByError txs = groupFailedByError txs
   \<and> map title (categorizeTransactions txs) =
       [''Successful Transactions'', ''Pending Transactions''] @
       map (\<lambda>k. ''Failed: '' @ k)
         (firstAppearance (map (\<lambda>tx. getErrorCategory (errorText tx))
                              (filter (\<lambda>tx. status tx = failed) txs)))
   \<and> map TransactionCategory.transactions (categorizeTransactions txs) =
       [filter (\<lambda>tx. status tx = success) txs, filter (\<lambda>tx. status tx = pending) txs] @
       map snd (groupFailedByError txs)
   \<and> map (\<lambda>(k, b). (k, map txId b))
        (failedByError
           [sampleTx ''1'' failed None (Some ''Request timeout''),
            sampleTx ''2'' success (Some ''hello'') (Some ''invalid''),
            sampleTx ''3'' failed None (Some ''Insufficient funds in wallet''),
            sampleTx ''4'' failed None None,
            sampleTx ''5'' failed None (Some ''TIMEOUT again'')])
       = [(''Timeout'', [''1'', ''5'']), (''Insufficient Funds'', [''3'']),
          (''Other Errors'', [''4''])]"
proof -
  have titles: "map title (categorizeTransactions txs) =
       [''Successful Transactions'', ''Pending Transactions''] @
       map (\<lambda>k. ''Failed: '' @ k)
         (firstAppearance (map (\<lambda>tx. getErrorCategory (errorText tx))
                              (filter (\<lambda>tx. status tx = failed) txs)))"
    by (simp add: categorizeTransactions_def failedByError_grouping groupFailedByError_def
        Let_def comp_def)
  have buckets: "map TransactionCategory.transactions (categorizeTransactions txs) =
       [filter (\<lambda>tx. status tx = success) txs, filter (\<lambda>tx. status tx = pending) txs] @
       map snd (groupFailedByError txs)"
    by (simp add: categorizeTransactions_def failedByError_grouping Let_def comp_def
        case_prod_unfold)
  have run: "map (\<lambda>(k, b). (k, map txId b))
        (failedByError
           [sampleTx ''1'' failed None (Some ''Request timeout''),
            sampleTx ''2'' success (Some ''hello'') (Some ''invalid''),
            sampleTx ''3'' failed None (Some ''Insufficient funds in wallet''),
            sampleTx ''4'' failed None None,
            sampleTx ''5'' failed None (Some ''TIMEOUT again'')])
       = [(''Timeout'', [''1'', ''5'']), (''Insufficient Funds'', [''3'']),
          (''Other Errors'', [''4''])]"
    by (simp add: failedByError_def failedByErrorStep_def errorText_def getErrorCategory_def
        toLowerChar_Char sampleTx_def)
  from failedByError_grouping [of txs] titles buckets run show ?thesis
    by (simp only: simp_thms)
qed

text \<open>
  C6, as stated, fails for \<open>categorizeTransactions\<close>: on the empty collection it still
  returns its two fixed entries.
\<close>

theorem empty_status_grouping_counterexample:
  "categorizeTransactions [] \<noteq> [] \<and> length (categorizeTransactions []) = 2"
  by (simp add: categorizeTransactions_def failedByError_def)

text \<open>
  C6, amended: on the empty collection no grouping throws; the message-topic grouping
  returns no entry, the failure-reason grouping has no bucket, and
  \<open>categorizeTransactions\<close> returns exactly its two fixed entries, "Successful
  Transactions" and "Pending Transactions", both without transactions, and no
  "Failed" entry.
\<close>

theorem empty_input_groupings:
  "categorizeByMessages [] = Inr []
   \<and> failedByError [] = []
   \<and> map title (categorizeTransactions []) = [''Successful Transactions'', ''Pending Transactions'']
   \<and> map TransactionCategory.transactions (categorizeTransactions []) = [[], []]"
  by (simp add: categorizeByMessages_def messageCategories_def failedByError_def
      categorizeTransactions_def)

lemma trim_Nil_white:
  assumes "trim s = []"
  shows "\<forall>c \<in> set s. isWhiteSpace c"
proof -
  from assms have "dropWhile isWhiteSpace (rev (dropWhile isWhiteSpace s)) = []"
    by (simp add: trim_def)
  then have "\<forall>c \<in> set (dropWhile isWhiteSpace s). isWhiteSpace c"
    by simp
  moreover have "\<forall>c \<in> set (takeWhile isWhiteSpace s). isWhiteSpace c"
    by (auto dest: set_takeWhileD)
  moreover have "set s = set (takeWhile isWhiteSpace s) \<union> set (dropWhile isWhiteSpace s)"
    by (metis set_append takeWhile_dropWhile_id)
  ultimately show ?thesis by auto
qed

lemma blank_error_other:
  assumes "blankText (errorMessage tx)"
  shows "getErrorCategory (errorText tx) = ''Other Errors''"
proof -
  have "\<forall>c \<in> set (errorText tx). isWhiteSpace c"
    using assms by (auto simp add: blankText_def errorText_def split: option.splits dest: trim_Nil_white)
  then show ?thesis
    using white_catch_all by blast
qed

lemma failed_bucket_iff:
  "((k, b) \<in> set (failedByError txs) \<and> tx \<in> set b) =
     (tx \<in> set txs \<and> status tx = failed \<and> getErrorCategory (errorText tx) = k
      \<and> b = filter (\<lambda>t. getErrorCategory (errorText t) = k) (filter (\<lambda>t. status t = failed) txs))"
  by (auto simp add: failedByError_grouping groupFailedByError_def Let_def set_firstAppearance)

lemma count_list_filter: "P x \<Longrightarrow> count_list (filter P xs) x = count_list xs x"
  by (induction xs) auto

text \<open>
  C10: every transaction whose status is \<open>failed\<close> lies in exactly one bucket of the
  failure-reason grouping, the one of its error category, as often as it occurs in the
  input; a failed transaction whose \<open>errorMessage\<close> is absent or empty is classified
  through the empty string and lies in the bucket "Other Errors".
\<close>

theorem failed_in_exactly_one_bucket:
  assumes "tx \<in> set txs" and "status tx = failed"
  shows "(\<exists>!k. \<exists>b. (k, b) \<in> set (failedByError txs) \<and> tx \<in> set b)
         \<and> distinct (map fst (failedByError txs))
         \<and> (\<exists>b. (getErrorCategory (errorText tx), b) \<in> set (failedByError txs) \<and> tx \<in> set b
                \<and> count_list b tx = count_list txs tx)
         \<and> (errorMessage tx = None \<or> errorMessage tx = Some [] \<longrightarrow>
              errorText tx = [] \<and>
              (\<exists>b. (''Other Errors'', b) \<in> set (failedByError txs) \<and> tx \<in> set b))"
proof -
  let ?k = "getErrorCategory (errorText tx)"
  let ?b = "filter (\<lambda>t. getErrorCategory (errorText t) = ?k) (filter (\<lambda>t. status t = failed) txs)"
  have mem: "(?k, ?b) \<in> set (failedByError txs) \<and> tx \<in> set ?b"
    by (rule iffD2 [OF failed_bucket_iff]) (simp add: assms)
  have uniq: "k = ?k" if "(k, b) \<in> set (failedByError txs) \<and> tx \<in> set b" for k b
    using that by (simp add: failed_bucket_iff)
  have one: "\<exists>!k. \<exists>b. (k, b) \<in> set (failedByError txs) \<and> tx \<in> set b"
    using mem uniq by blast
  have dist: "distinct (map fst (failedByError txs))"
    by (simp add: failedByError_grouping groupFailedByError_def Let_def comp_def
        distinct_firstAppearance)
  have cnt: "count_list ?b tx = count_list txs tx"
    using assms by (simp add: count_list_filter)
  have other: "errorText tx = [] \<and> (\<exists>b. (''Other Errors'', b) \<in> set (failedByError txs) \<and> tx \<in> set b)"
    if "errorMessage tx = None \<or> errorMessage tx = Some []"
  proof -
    from that have e: "errorText tx = []"
      by (auto simp add: errorText_def)
    from that have "blankText (errorMessage tx)"
      by (auto simp add: blankText_def trim_def)
    then have "?k = ''Other Errors''"
      by (rule blank_error_other)
    with mem e show ?thesis by auto
  qed
  from one dist mem cnt other show ?thesis by blast
qed

theorem failed_in_exactly_one_bucket_witness:
  "sampleTx ''2'' failed None None \<in> set [sampleTx ''1'' success (Some ''hi'') None, sampleTx ''2'' failed None None]
   \<and> status (sampleTx ''2'' failed None None) = failed
   \<and> errorMessage (sampleTx ''2'' failed None None) = None
   \<and> (\<exists>!k. \<exists>b. (k, b) \<in> set (failedByError [sampleTx ''1'' success (Some ''hi'') None, sampleTx ''2'' failed None None])
                 \<and> sampleTx ''2'' failed None None \<in> set b)
   \<and> (\<exists>b. (''Other Errors'', b) \<in> set (failedByError [sampleTx ''1'' success (Some ''hi'') None, sampleTx ''2'' failed None None])
                 \<and> sampleTx ''2'' failed None None \<in> set b)"
proof -
  let ?tx = "sampleTx ''2'' failed None None"
  let ?txs = "[sampleTx ''1'' success (Some ''hi'') None, ?tx]"
  have h1: "?tx \<in> set ?txs" by simp
  have h2: "status ?tx = failed" by (simp add: sampleTx_def)
  have h3: "errorMessage ?tx = None" by (simp add: sampleTx_def)
  from failed_in_exactly_one_bucket [OF h1 h2] h1 h2 h3 show ?thesis
    by (simp only: simp_thms)
qed

text \<open>
  C2, as stated, fails for the failure-reason grouping: a failed transaction whose error
  text is absent, or blank, is put into the bucket "Other Errors".
\<close>

theorem blank_error_text_counterexample:
  "blankText (errorMessage (sampleTx ''1'' failed None None))
   \<and> failedByError [sampleTx ''1'' failed None None]
       = [(''Other Errors'', [sampleTx ''1'' failed None None])]
   \<and> blankText (errorMessage (sampleTx ''2'' failed None (Some ''   '')))
   \<and> failedByError [sampleTx ''2'' failed None (Some ''   '')]
       = [(''Other Errors'', [sampleTx ''2'' failed None (Some ''   '')])]"
  by (simp add: blankText_def trim_def isWhiteSpace_Char failedByError_def failedByErrorStep_def
      errorText_def getErrorCategory_def toLowerChar_Char sampleTx_def)

text \<open>
  C2, amended: in the message-topic grouping an item whose message is absent or blank
  after trimming lies in no bucket of the result, the catch-all included. The
  failure-reason grouping does not exclude by text: a failed item whose error text is
  absent or blank lies in the bucket "Other Errors".
\<close>

theorem blank_text_grouping:
  "(blankText (message tx) \<longrightarrow>
      (\<exists>r. categorizeByMessages txs = Inr r \<and> (\<forall>cat \<in> set r. tx \<notin> set (transactions cat))))
   \<and> (tx \<in> set txs \<and> status tx = failed \<and> blankText (errorMessage tx) \<longrightarrow>
      (\<exists>b. (''Other Errors'', b) \<in> set (failedByError txs) \<and> tx \<in> set b))"
proof (intro conjI impI)
  assume "blankText (message tx)"
  then have "\<forall>cat \<in> set (groupByTopic txs). tx \<notin> set (transactions cat)"
    by (auto simp add: groupByTopic_def)
  then show "\<exists>r. categorizeByMessages txs = Inr r \<and> (\<forall>cat \<in> set r. tx \<notin> set (transactions cat))"
    by (simp add: categorizeByMessages_grouping)
next
  assume a: "tx \<in> set txs \<and> status tx = failed \<and> blankText (errorMessage tx)"
  then have "getErrorCategory (errorText tx) = ''Other Errors''"
    by (simp add: blank_error_other)
  with a show "\<exists>b. (''Other Errors'', b) \<in> set (failedByError txs) \<and> tx \<in> set b"
    by (auto simp add: failed_bucket_iff)
qed

theorem blank_text_grouping_witness:
  "blankText (message (sampleTx ''1'' failed (Some ''   '') None))
   \<and> (\<exists>r. categorizeByMessages [sampleTx ''1'' failed (Some ''   '') None, sampleTx ''2'' success (Some ''lunch'') None] = Inr r
          \<and> list_all (\<lambda>cat. sampleTx ''1'' failed (Some ''   '') None \<notin> set (transactions cat)) r)
   \<and> status (sampleTx ''1'' failed (Some ''   '') None) = failed
   \<and> blankText (errorMessage (sampleTx ''1'' failed (Some ''   '') None))
   \<and> (\<exists>b. (''Other Errors'', b) \<in> set (failedByError [sampleTx ''1'' failed (Some ''   '') None, sampleTx ''2'' success (Some ''lunch'') None])
          \<and> sampleTx ''1'' failed (Some ''   '') None \<in> set b)"
proof -
  let ?tx = "sampleTx ''1'' failed (Some ''   '') None"
  let ?txs = "[?tx, sampleTx ''2'' success (Some ''lunch'') None]"
  have h1: "blankText (message ?tx)"
    by (simp add: blankText_def sampleTx_def trim_def isWhiteSpace_Char)
  have h2: "?tx \<in> set ?txs \<and> status ?tx = failed \<and> blankText (errorMessage ?tx)"
    by (simp add: blankText_def sampleTx_def)
  from blank_text_grouping [of ?tx ?txs] h1 h2 show ?thesis
    by (simp add: list_all_iff)
qed

end
